theory Spec2Isabelle
  imports Complex_Main
begin

section \<open>Common values\<close>

text \<open>
  Go's \<open>error\<close> values that the two files compare by identity, and every other error
  (SDK failures, \<open>fmt.Errorf\<close>) as an opaque message.
\<close>

datatype error = ErrWaitTimeout | InstanceNotFound | ErrorNotVmssInstance | Errorf string


section \<open>azure\_backoff.go\<close>

subsection \<open>Data\<close>

text \<open>
  \<open>wait.Backoff\<close>: the duration in nanoseconds, the two \<open>float64\<close> fields (only carried
  around here, never computed with) and the number of steps.
\<close>

record Backoff =
  Duration :: int
  Factor :: real
  Jitter :: real
  Steps :: int

record Cloud =
  CloudProviderBackoff :: bool
  resourceRequestBackoff :: Backoff



subsection \<open>requestBackoff\<close>

definition requestBackoff :: "Cloud \<Rightarrow> Backoff" where
  "requestBackoff az =
     (if CloudProviderBackoff az then resourceRequestBackoff az
      else \<lparr>Duration = 0, Factor = 0, Jitter = 0, Steps = 1\<rparr>)"

subsection \<open>The backoff loop\<close>

text \<open>
  Modelled from the spec: \<open>wait.ExponentialBackoff\<close> of k8s.io/apimachinery is not among
  the sources; the spec calls it "a generic exponential backoff loop".  The loop runs the
  condition at most \<open>Steps\<close> times, sleeping in between (the sleep is not modelled); it
  returns the condition's error as soon as there is one, nil as soon as the condition
  reports done, and \<open>ErrWaitTimeout\<close> when the steps are used up.  The condition is a
  closure over mutable variables and clients: a function on the state \<open>'s\<close>.
\<close>

type_synonym 's ConditionFunc = "'s \<Rightarrow> (bool \<times> error option) \<times> 's"

fun backoffLoop :: "nat \<Rightarrow> 's ConditionFunc \<Rightarrow> 's \<Rightarrow> error option \<times> 's" where
  "backoffLoop 0 condition s = (Some ErrWaitTimeout, s)"
| "backoffLoop (Suc n) condition s =
     (case condition s of
        ((ok, err), s') \<Rightarrow>
          if err \<noteq> None \<or> ok then (err, s') else backoffLoop n condition s')"

definition ExponentialBackoff :: "Backoff \<Rightarrow> 's ConditionFunc \<Rightarrow> 's \<Rightarrow> error option \<times> 's" where
  "ExponentialBackoff backoff condition s = backoffLoop (nat (Steps backoff)) condition s"

text \<open>A condition instrumented with a counter of its invocations.\<close>

definition counting :: "'s ConditionFunc \<Rightarrow> ('s \<times> nat) ConditionFunc" where
  "counting condition = (\<lambda>(s, n). case condition s of (r, s') \<Rightarrow> (r, (s', Suc n)))"

subsection \<open>processRetryResponse\<close>




subsection \<open>GetVirtualMachineWithRetry\<close>

text \<open>
  \<open>az.getVirtualMachine\<close> (azure\_wrap.go) is not among the sources: it is a parameter, a
  function of the node name on the state of the caches and clients.  The closure's
  captured variables \<open>machine\<close> and \<open>retryErr\<close> are the first component of the
  condition's state; \<open>zeroVirtualMachine\<close> is the zero value of \<open>compute.VirtualMachine\<close>.
\<close>


type_synonym ('vm, 's) getVirtualMachine = "string \<Rightarrow> 's \<Rightarrow> ('vm \<times> error option) \<times> 's"

definition getVirtualMachineCondition ::
  "('vm, 's) getVirtualMachine \<Rightarrow> string \<Rightarrow> (('vm \<times> error option) \<times> 's) ConditionFunc" where
  "getVirtualMachineCondition getVirtualMachine name =
     (\<lambda>((machine, retryErr), s).
        case getVirtualMachine name s of
          ((machine', retryErr'), s') \<Rightarrow>
            if retryErr' \<noteq> None then ((False, None), ((machine', retryErr'), s'))
            else ((True, None), ((machine', retryErr'), s')))"

definition GetVirtualMachineWithRetry ::
  "Cloud \<Rightarrow> ('vm, 's) getVirtualMachine \<Rightarrow> 'vm \<Rightarrow> string \<Rightarrow> 's \<Rightarrow> ('vm \<times> error option) \<times> 's" where
  "GetVirtualMachineWithRetry az getVirtualMachine zeroVirtualMachine name s =
     (case ExponentialBackoff (requestBackoff az)
             (getVirtualMachineCondition getVirtualMachine name) ((zeroVirtualMachine, None), s) of
        (err, ((machine, retryErr), s')) \<Rightarrow>
          ((machine, if err = Some ErrWaitTimeout then retryErr else err), s'))"

text \<open>The state in which attempt number \<open>i\<close> (from 0) of the loop starts.\<close>

definition attemptState :: "('vm, 's) getVirtualMachine \<Rightarrow> string \<Rightarrow> 's \<Rightarrow> nat \<Rightarrow> 's" where
  "attemptState getVirtualMachine name s i = ((\<lambda>t. snd (getVirtualMachine name t)) ^^ i) s"

subsection \<open>ListLBWithRetry\<close>

text \<open>
  \<open>network.LoadBalancerListResult\<close> with the two fields the function reads.  The SDK
  client and its page type are not among the sources: \<open>List\<close> stands for
  \<open>az.LoadBalancerClient.List\<close> followed by \<open>resultPage.Response()\<close>, and \<open>Next\<close> for
  \<open>resultPage.Next()\<close> followed by \<open>resultPage.Response()\<close>, the page being
  represented by the result it holds.  The closures' captured variable \<open>result\<close> is the
  first component of the conditions' state.  The rate limiter only delays and is left out.
\<close>


record 'lb LoadBalancerListResult =
  Value :: "'lb list option"
  NextLink :: "string option"

type_synonym ('lb, 's) listFn = "'s \<Rightarrow> ('lb LoadBalancerListResult \<times> error option) \<times> 's"
type_synonym ('lb, 's) nextFn =
  "'lb LoadBalancerListResult \<Rightarrow> 's \<Rightarrow> ('lb LoadBalancerListResult \<times> error option) \<times> 's"

definition listCondition ::
  "('lb, 's) listFn \<Rightarrow> ('lb LoadBalancerListResult \<times> 's) ConditionFunc" where
  "listCondition List =
     (\<lambda>(result, s).
        case List s of
          ((result', retryErr), s') \<Rightarrow>
            if retryErr \<noteq> None then ((False, retryErr), (result', s'))
            else ((True, None), (result', s')))"

definition nextCondition ::
  "('lb, 's) nextFn \<Rightarrow> ('lb LoadBalancerListResult \<times> 's) ConditionFunc" where
  "nextCondition Next =
     (\<lambda>(result, s).
        case Next result s of
          ((result', retryErr), s') \<Rightarrow>
            if retryErr \<noteq> None then ((False, retryErr), (result', s'))
            else ((True, None), (result', s')))"

text \<open>
  The \<open>for appendResults\<close> loop.  Nothing bounds the number of pages the service hands
  out, so the loop is a partial function: \<open>None\<close> is a run that never ends.
\<close>

partial_function (option) listLBLoop ::
  "Cloud \<Rightarrow> ('lb, 's) nextFn \<Rightarrow> 'lb list \<Rightarrow> 'lb LoadBalancerListResult \<Rightarrow> 's
     \<Rightarrow> (('lb list \<times> error option) \<times> 's) option" where
  "listLBLoop az Next allLBs result s =
     (case Value result of
        None \<Rightarrow> Some ((allLBs, None), s)
      | Some vs \<Rightarrow>
          if \<not> 0 < length vs then Some ((allLBs, None), s)
          else
            (case NextLink result of
               None \<Rightarrow> Some ((allLBs @ vs, None), s)
             | Some link \<Rightarrow>
                 (case ExponentialBackoff (requestBackoff az) (nextCondition Next) (result, s) of
                    (Some err, (result', s')) \<Rightarrow> Some ((allLBs @ vs, Some err), s')
                  | (None, (result', s')) \<Rightarrow> listLBLoop az Next (allLBs @ vs) result' s')))"

text \<open>The first return value is a slice that may be nil (\<open>None\<close>).\<close>

definition ListLBWithRetry ::
  "Cloud \<Rightarrow> ('lb, 's) listFn \<Rightarrow> ('lb, 's) nextFn \<Rightarrow> 's
     \<Rightarrow> (('lb list option \<times> error option) \<times> 's) option" where
  "ListLBWithRetry az List Next s =
     (case ExponentialBackoff (requestBackoff az) (listCondition List)
             (\<lparr>Value = None, NextLink = None\<rparr>, s) of
        (Some err, (result, s')) \<Rightarrow> Some ((None, Some err), s')
      | (None, (result, s')) \<Rightarrow>
          (case listLBLoop az Next [] result s' of
             None \<Rightarrow> None
           | Some ((allLBs, err), s'') \<Rightarrow> Some ((Some allLBs, err), s'')))"

text \<open>
  The claim's words: the entries of a page, and the chain of pages the SDK hands out,
  reached from a first page by calling \<open>Next\<close> while the current page has entries and a
  NextLink.  The chain ends without error at a page with nil or empty Value or without
  NextLink, and with the error of the call of \<open>Next\<close> that failed.
\<close>

definition pageValues :: "'lb LoadBalancerListResult \<Rightarrow> 'lb list" where
  "pageValues page = (case Value page of None \<Rightarrow> [] | Some vs \<Rightarrow> vs)"

inductive pageChain ::
  "('lb, 's) nextFn \<Rightarrow> 'lb LoadBalancerListResult \<Rightarrow> 's
   \<Rightarrow> 'lb LoadBalancerListResult list \<Rightarrow> error option \<Rightarrow> 's \<Rightarrow> bool"
  for Next where
    lastEmpty: "pageValues page = [] \<Longrightarrow> pageChain Next page s [page] None s"
  | lastNoLink: "pageValues page \<noteq> [] \<Longrightarrow> NextLink page = None \<Longrightarrow>
       pageChain Next page s [page] None s"
  | failed: "pageValues page \<noteq> [] \<Longrightarrow> NextLink page = Some link \<Longrightarrow>
       Next page s = ((page', Some err), s') \<Longrightarrow> pageChain Next page s [page] (Some err) s'"
  | follow: "pageValues page \<noteq> [] \<Longrightarrow> NextLink page = Some link \<Longrightarrow>
       Next page s = ((page', None), s') \<Longrightarrow> pageChain Next page' s' pages err s'' \<Longrightarrow>
       pageChain Next page s (page # pages) err s''"

section \<open>azure\_vmss.go\<close>

subsection \<open>getScaleSetVMInstanceID\<close>

text \<open>
  Modelled from the spec: \<open>strconv.ParseUint\<close> and \<open>fmt.Sprintf\<close> belong to the Go standard
  library and are not among the sources; the claim reads them as parsing "an unsigned
  base-36 number" and printing "the decimal string representation".  A Go string is a
  sequence of bytes, \<open>len\<close> counts bytes and \<open>s[i:]\<close> slices bytes: a \<open>string\<close> here is the
  list of these bytes.  \<open>ParseUint\<close> follows the library's loop: every byte must be a digit
  below the base (letters of either case count from 10), the empty string is a syntax
  error, and a value that does not fit 64 bits is a range error; the accumulator is a
  \<open>uint64\<close>, its wrap-around written out.
\<close>

datatype NumError = ErrSyntax | ErrRange

definition parseDigit :: "char \<Rightarrow> nat option" where
  "parseDigit c =
     (let n = (of_char c :: nat)
      in if 48 \<le> n \<and> n \<le> 57 then Some (n - 48)
         else if 97 \<le> n \<and> n \<le> 122 then Some (n - 97 + 10)
         else if 65 \<le> n \<and> n \<le> 90 then Some (n - 65 + 10)
         else None)"

definition maxUint64 :: nat where
  "maxUint64 = 2 ^ 64 - 1"

fun parseUintLoop :: "nat \<Rightarrow> string \<Rightarrow> nat \<Rightarrow> NumError + nat" where
  "parseUintLoop base [] n = Inr n"
| "parseUintLoop base (c # cs) n =
     (case parseDigit c of
        None \<Rightarrow> Inl ErrSyntax
      | Some d \<Rightarrow>
          if d \<ge> base then Inl ErrSyntax
          else if n \<ge> maxUint64 div base + 1 then Inl ErrRange
          else
            (let n' = (n * base) mod 2 ^ 64;
                 n1 = (n' + d) mod 2 ^ 64
             in if n1 < n' \<or> n1 > maxUint64 then Inl ErrRange
                else parseUintLoop base cs n1))"

definition ParseUint :: "string \<Rightarrow> nat \<Rightarrow> NumError + nat" where
  "ParseUint s base = (if s = [] then Inl ErrSyntax else parseUintLoop base s 0)"

text \<open>\<open>fmt.Sprintf("%d", n)\<close> for an unsigned \<open>n\<close>: the decimal digits, most significant first.\<close>

fun formatUint :: "nat \<Rightarrow> string" where
  "formatUint n =
     (if n < 10 then [''0123456789'' ! n]
      else formatUint (n div 10) @ [''0123456789'' ! (n mod 10)])"

declare formatUint.simps [simp del]

definition getScaleSetVMInstanceID :: "string \<Rightarrow> string \<times> error option" where
  "getScaleSetVMInstanceID machineName =
     (let nameLength = length machineName
      in if nameLength < 6 then ('''', Some ErrorNotVmssInstance)
         else
           (case ParseUint (drop (nameLength - 6) machineName) 36 of
              Inl err \<Rightarrow> ('''', Some ErrorNotVmssInstance)
            | Inr instanceID \<Rightarrow> (formatUint instanceID, None)))"

text \<open>
  The claim's words: the value of a string read as an unsigned base-36 number (digits
  \<open>0\<close>..\<open>9\<close>, then the letters in either case for 10..35), and the number of which a string
  is the decimal representation (digits only, no leading zero but for \<open>0\<close> itself).
\<close>

definition base36DigitValue :: "char \<Rightarrow> nat option" where
  "base36DigitValue c =
     (let n = (of_char c :: nat)
      in if of_char CHR ''0'' \<le> n \<and> n \<le> of_char CHR ''9'' then Some (n - of_char CHR ''0'')
         else if of_char CHR ''a'' \<le> n \<and> n \<le> of_char CHR ''z''
              then Some (n - of_char CHR ''a'' + 10)
         else if of_char CHR ''A'' \<le> n \<and> n \<le> of_char CHR ''Z''
              then Some (n - of_char CHR ''A'' + 10)
         else None)"

definition base36Value :: "string \<Rightarrow> nat option" where
  "base36Value s =
     (if s \<noteq> [] \<and> list_all (\<lambda>c. base36DigitValue c \<noteq> None) s
      then Some (foldl (\<lambda>v c. 36 * v + the (base36DigitValue c)) 0 s)
      else None)"

definition decimalValue :: "string \<Rightarrow> nat option" where
  "decimalValue s =
     (if s \<noteq> [] \<and> list_all (\<lambda>c. c \<in> set ''0123456789'') s
         \<and> (1 < length s \<longrightarrow> hd s \<noteq> CHR ''0'')
      then Some (foldl (\<lambda>v c. 10 * v + (of_char c - 48)) 0 s)
      else None)"

section \<open>Properties\<close>

subsection \<open>azure\_backoff.go\<close>




lemma backoffLoop_once:
  "backoffLoop (Suc 0) condition s =
     (case condition s of
        ((ok, err), s') \<Rightarrow> (if err \<noteq> None \<or> ok then err else Some ErrWaitTimeout, s'))"
  by (simp split: prod.splits)

text \<open>
  C5.  With CloudProviderBackoff false, requestBackoff returns the Backoff with Steps = 1
  (and zero in the other fields), and the backoff loop run with it invokes the wrapped
  condition exactly once; with CloudProviderBackoff true it returns
  az.resourceRequestBackoff unchanged.
\<close>

theorem requestBackoff_steps:
  "(\<not> CloudProviderBackoff az \<longrightarrow>
      Steps (requestBackoff az) = 1
      \<and> requestBackoff az = \<lparr>Duration = 0, Factor = 0, Jitter = 0, Steps = 1\<rparr>
      \<and> snd (snd (ExponentialBackoff (requestBackoff az) (counting condition) (s, 0))) = 1
      \<and> ExponentialBackoff (requestBackoff az) condition s =
          (case condition s of
             ((ok, err), s') \<Rightarrow> (if err \<noteq> None \<or> ok then err else Some ErrWaitTimeout, s')))
   \<and> (CloudProviderBackoff az \<longrightarrow> requestBackoff az = resourceRequestBackoff az)"
  by (simp add: requestBackoff_def ExponentialBackoff_def counting_def backoffLoop_once
           split: prod.splits)

theorem requestBackoff_steps_witness:
  "Steps (requestBackoff \<lparr>CloudProviderBackoff = False,
       resourceRequestBackoff = \<lparr>Duration = 5, Factor = 2, Jitter = 1, Steps = 6\<rparr>\<rparr>) = 1
   \<and> snd (snd (ExponentialBackoff
        (requestBackoff \<lparr>CloudProviderBackoff = False,
           resourceRequestBackoff = \<lparr>Duration = 5, Factor = 2, Jitter = 1, Steps = 6\<rparr>\<rparr>)
        (counting (\<lambda>s::nat. ((False, None), s))) (0, 0))) = 1
   \<and> requestBackoff \<lparr>CloudProviderBackoff = True,
       resourceRequestBackoff = \<lparr>Duration = 5, Factor = 2, Jitter = 1, Steps = 6\<rparr>\<rparr>
     = \<lparr>Duration = 5, Factor = 2, Jitter = 1, Steps = 6\<rparr>"
proof -
  let ?b = "\<lparr>Duration = 5, Factor = 2, Jitter = 1, Steps = 6\<rparr>"
  let ?off = "\<lparr>CloudProviderBackoff = False, resourceRequestBackoff = ?b\<rparr>"
  let ?on = "\<lparr>CloudProviderBackoff = True, resourceRequestBackoff = ?b\<rparr>"
  have off: "\<not> CloudProviderBackoff ?off" by simp
  have on: "CloudProviderBackoff ?on" by simp
  have "Steps (requestBackoff ?off) = 1
        \<and> snd (snd (ExponentialBackoff (requestBackoff ?off)
                      (counting (\<lambda>s::nat. ((False, None), s))) (0, 0))) = 1"
    using requestBackoff_steps [of ?off "\<lambda>s::nat. ((False, None), s)" 0] off by blast
  moreover have "requestBackoff ?on = resourceRequestBackoff ?on"
    using requestBackoff_steps [of ?on "\<lambda>s::nat. ((False, None), s)" 0] on by blast
  ultimately show ?thesis by simp
qed

lemma attemptState_Suc:
  "attemptState g name s (Suc i) = attemptState g name (snd (g name s)) i"
  by (simp add: attemptState_def funpow_Suc_right del: funpow.simps)

lemma getVM_loop_error:
  "backoffLoop n (getVirtualMachineCondition g name) ((m0, e0), s) = (err, ((m, e), s')) \<Longrightarrow>
   err = None \<or> (err = Some ErrWaitTimeout \<and> (e = e0 \<or> (\<exists>t. e = snd (fst (g name t)))))"
proof (induction n arbitrary: m0 e0 s)
  case 0
  then show ?case by simp
next
  case (Suc n)
  obtain m1 e1 s1 where g: "g name s = ((m1, e1), s1)"
    by (metis prod.exhaust)
  show ?case
  proof (cases e1)
    case None
    with Suc.prems g show ?thesis
      by (simp add: getVirtualMachineCondition_def)
  next
    case (Some x)
    with Suc.prems g
    have "backoffLoop n (getVirtualMachineCondition g name) ((m1, e1), s1) = (err, ((m, e), s'))"
      by (simp add: getVirtualMachineCondition_def)
    from Suc.IH [OF this] g show ?thesis
      by (metis fst_conv snd_conv)
  qed
qed

lemma getVM_loop_all_fail:
  "0 < n \<Longrightarrow> (\<forall>i<n. snd (fst (g name (attemptState g name s i))) \<noteq> None) \<Longrightarrow>
   backoffLoop n (getVirtualMachineCondition g name) ((m0, e0), s) =
     (Some ErrWaitTimeout, (fst (g name (attemptState g name s (n - 1))), attemptState g name s n))"
proof (induction n arbitrary: m0 e0 s)
  case 0
  then show ?case by simp
next
  case (Suc n)
  obtain m1 e1 s1 where g: "g name s = ((m1, e1), s1)"
    by (metis prod.exhaust)
  from Suc.prems(2) have "snd (fst (g name (attemptState g name s 0))) \<noteq> None"
    by blast
  with g have e1: "e1 \<noteq> None" by (simp add: attemptState_def)
  have step: "backoffLoop (Suc n) (getVirtualMachineCondition g name) ((m0, e0), s) =
      backoffLoop n (getVirtualMachineCondition g name) ((m1, e1), s1)"
    using g e1 by (simp add: getVirtualMachineCondition_def)
  show ?case
  proof (cases n)
    case 0
    with step g show ?thesis by (simp add: attemptState_def)
  next
    case (Suc k)
    have "\<forall>i<n. snd (fst (g name (attemptState g name s1 i))) \<noteq> None"
    proof (intro allI impI)
      fix i assume "i < n"
      then have "snd (fst (g name (attemptState g name s (Suc i)))) \<noteq> None"
        using Suc.prems(2) by simp
      then show "snd (fst (g name (attemptState g name s1 i))) \<noteq> None"
        using g by (simp add: attemptState_Suc)
    qed
    with Suc.IH [of s1 m1 e1] Suc
    have "backoffLoop n (getVirtualMachineCondition g name) ((m1, e1), s1) =
       (Some ErrWaitTimeout, (fst (g name (attemptState g name s1 (n - 1))), attemptState g name s1 n))"
      by simp
    with step g Suc show ?thesis
      by (simp add: attemptState_Suc)
  qed
qed

text \<open>
  C8.  Provided getVirtualMachine itself never hands out wait.ErrWaitTimeout,
  GetVirtualMachineWithRetry never returns it; and when every one of the Steps attempts
  fails, the machine and the error returned are those of the last attempt.
\<close>

theorem GetVirtualMachineWithRetry_never_timeout:
  assumes "\<And>t. snd (fst (getVirtualMachine name t)) \<noteq> Some ErrWaitTimeout"
  shows "snd (fst (GetVirtualMachineWithRetry az getVirtualMachine zeroVirtualMachine name s))
           \<noteq> Some ErrWaitTimeout
         \<and> (0 < Steps (requestBackoff az)
            \<and> (\<forall>i < nat (Steps (requestBackoff az)).
                  snd (fst (getVirtualMachine name (attemptState getVirtualMachine name s i))) \<noteq> None)
            \<longrightarrow> GetVirtualMachineWithRetry az getVirtualMachine zeroVirtualMachine name s =
                  getVirtualMachine name
                    (attemptState getVirtualMachine name s (nat (Steps (requestBackoff az)) - 1)))"
proof
  obtain err m e s' where loop:
    "backoffLoop (nat (Steps (requestBackoff az)))
       (getVirtualMachineCondition getVirtualMachine name) ((zeroVirtualMachine, None), s)
     = (err, ((m, e), s'))"
    by (metis prod.exhaust)
  from getVM_loop_error [OF loop]
  consider "err = None" | "err = Some ErrWaitTimeout" "e = None"
    | t where "err = Some ErrWaitTimeout" "e = snd (fst (getVirtualMachine name t))"
    by blast
  then have "(if err = Some ErrWaitTimeout then e else err) \<noteq> Some ErrWaitTimeout"
  proof cases
    case 1
    then show ?thesis by simp
  next
    case 2
    then show ?thesis by simp
  next
    case 3
    with assms [of t] show ?thesis by simp
  qed
  with loop
  show "snd (fst (GetVirtualMachineWithRetry az getVirtualMachine zeroVirtualMachine name s))
           \<noteq> Some ErrWaitTimeout"
    by (simp add: GetVirtualMachineWithRetry_def ExponentialBackoff_def)
next
  let ?n = "nat (Steps (requestBackoff az))"
  show "0 < Steps (requestBackoff az)
            \<and> (\<forall>i < ?n.
                  snd (fst (getVirtualMachine name (attemptState getVirtualMachine name s i))) \<noteq> None)
            \<longrightarrow> GetVirtualMachineWithRetry az getVirtualMachine zeroVirtualMachine name s =
                  getVirtualMachine name
                    (attemptState getVirtualMachine name s (?n - 1))"
  proof
    assume a: "0 < Steps (requestBackoff az)
            \<and> (\<forall>i < ?n.
                  snd (fst (getVirtualMachine name (attemptState getVirtualMachine name s i))) \<noteq> None)"
    then have n: "0 < ?n" by simp
    from getVM_loop_all_fail [OF n, of getVirtualMachine name s zeroVirtualMachine None] a
    have loop: "backoffLoop ?n (getVirtualMachineCondition getVirtualMachine name)
                 ((zeroVirtualMachine, None), s) =
       (Some ErrWaitTimeout,
        (fst (getVirtualMachine name (attemptState getVirtualMachine name s (?n - 1))),
         attemptState getVirtualMachine name s ?n))"
      by blast
    have "attemptState getVirtualMachine name s ?n =
          snd (getVirtualMachine name (attemptState getVirtualMachine name s (?n - 1)))"
      using n by (cases ?n) (simp_all add: attemptState_def)
    with loop show "GetVirtualMachineWithRetry az getVirtualMachine zeroVirtualMachine name s =
                  getVirtualMachine name
                    (attemptState getVirtualMachine name s (?n - 1))"
      by (simp add: GetVirtualMachineWithRetry_def ExponentialBackoff_def split: prod.splits)
  qed
qed

theorem GetVirtualMachineWithRetry_never_timeout_witness:
  "GetVirtualMachineWithRetry
     \<lparr>CloudProviderBackoff = True,
       resourceRequestBackoff = \<lparr>Duration = 5, Factor = 2, Jitter = 1, Steps = 3\<rparr>\<rparr>
     (\<lambda>name s. ((name, if s = 2 then Some InstanceNotFound else Some (Errorf ''busy'')), Suc s))
     [] ''node-0'' (0::nat)
   = ((''node-0'', Some InstanceNotFound), 3)"
proof -
  let ?g = "\<lambda>(name::string) (s::nat). ((name, if s = 2 then Some InstanceNotFound else Some (Errorf ''busy'')), Suc s)"
  let ?az = "\<lparr>CloudProviderBackoff = True,
       resourceRequestBackoff = \<lparr>Duration = 5, Factor = 2, Jitter = 1, Steps = 3\<rparr>\<rparr>"
  have nt: "\<And>t. snd (fst (?g ''node-0'' t)) \<noteq> Some ErrWaitTimeout" by simp
  have steps: "nat (Steps (requestBackoff ?az)) = 3" "0 < Steps (requestBackoff ?az)"
    by (simp_all add: requestBackoff_def)
  have fail: "\<forall>i < nat (Steps (requestBackoff ?az)).
      snd (fst (?g ''node-0'' (attemptState ?g ''node-0'' 0 i))) \<noteq> None"
    by simp
  have st: "attemptState ?g ''node-0'' 0 (nat (Steps (requestBackoff ?az)) - 1) = 2"
    unfolding steps by (simp add: attemptState_def numeral_2_eq_2)
  from GetVirtualMachineWithRetry_never_timeout [of ?g "''node-0''" ?az "[]" 0, OF nt] steps(2) fail
  have "GetVirtualMachineWithRetry ?az ?g [] ''node-0'' 0 =
          ?g ''node-0'' (attemptState ?g ''node-0'' 0 (nat (Steps (requestBackoff ?az)) - 1))"
    by blast
  then show ?thesis unfolding st by simp
qed

lemma pageValues_empty:
  "pageValues page = [] \<Longrightarrow> Value page = None \<or> Value page = Some []"
  by (simp add: pageValues_def split: option.splits)

lemma pageValues_nonempty:
  "pageValues page \<noteq> [] \<Longrightarrow> Value page = Some (pageValues page)"
  by (simp add: pageValues_def split: option.splits)

lemma backoff_list_once:
  assumes "0 < Steps (requestBackoff az)"
  shows "ExponentialBackoff (requestBackoff az) (listCondition List) (result, s) =
           (case List s of ((result', err), s') \<Rightarrow> (err, (result', s')))"
proof -
  from assms obtain n where n: "nat (Steps (requestBackoff az)) = Suc n"
    by (cases "nat (Steps (requestBackoff az))") simp_all
  show ?thesis
    by (cases "List s")
       (auto simp: ExponentialBackoff_def n listCondition_def split: prod.splits)
qed

lemma backoff_next_once:
  assumes "0 < Steps (requestBackoff az)"
  shows "ExponentialBackoff (requestBackoff az) (nextCondition Next) (page, s) =
           (case Next page s of ((page', err), s') \<Rightarrow> (err, (page', s')))"
proof -
  from assms obtain n where n: "nat (Steps (requestBackoff az)) = Suc n"
    by (cases "nat (Steps (requestBackoff az))") simp_all
  show ?thesis
    by (cases "Next page s")
       (auto simp: ExponentialBackoff_def n nextCondition_def split: prod.splits)
qed

lemma listLBLoop_chain:
  assumes steps: "0 < Steps (requestBackoff az)"
  shows "pageChain Next page s pages err s' \<Longrightarrow>
   listLBLoop az Next allLBs page s = Some ((allLBs @ concat (map pageValues pages), err), s')"
proof (induction arbitrary: allLBs rule: pageChain.induct)
  case (lastEmpty page s)
  from pageValues_empty [OF lastEmpty(1)] lastEmpty(1) show ?case
    by (subst listLBLoop.simps) auto
next
  case (lastNoLink page s)
  from pageValues_nonempty [OF lastNoLink(1)] lastNoLink show ?case
    by (subst listLBLoop.simps) simp
next
  case (failed page link s page' err s')
  from failed(3) have "ExponentialBackoff (requestBackoff az) (nextCondition Next) (page, s)
      = (Some err, (page', s'))"
    by (simp add: backoff_next_once [OF steps])
  with pageValues_nonempty [OF failed(1)] failed(1,2) show ?case
    by (subst listLBLoop.simps) simp
next
  case (follow page link s page' s' pages err s'')
  from follow(3) have "ExponentialBackoff (requestBackoff az) (nextCondition Next) (page, s)
      = (None, (page', s'))"
    by (simp add: backoff_next_once [OF steps])
  with pageValues_nonempty [OF follow(1)] follow(1,2) follow.IH show ?case
    by (subst listLBLoop.simps) simp
qed

text \<open>
  C6.  With a backoff of at least one step: when \<open>LoadBalancerClient.List\<close> returns a first
  page, ListLBWithRetry returns the concatenation, in order, of the entries of that
  page and of the pages that \<open>Next\<close> returns while following NextLink, up to the page with
  nil or empty Value or without NextLink; when the call of \<open>Next\<close> for a later page
  fails, it returns the entries accumulated so far with that error; and when \<open>List\<close> itself
  fails it returns a nil slice with that error.
\<close>

theorem ListLBWithRetry_pages:
  assumes "0 < Steps (requestBackoff az)"
    and "List s = ((first, e0), s1)"
  shows "(e0 = None \<longrightarrow>
            (\<forall>pages err s'. pageChain Next first s1 pages err s' \<longrightarrow>
               ListLBWithRetry az List Next s
                 = Some ((Some (concat (map pageValues pages)), err), s')))
         \<and> (\<forall>e. e0 = Some e \<longrightarrow> ListLBWithRetry az List Next s = Some ((None, Some e), s1))"
proof (intro conjI impI allI)
  fix pages err s'
  assume "e0 = None" and chain: "pageChain Next first s1 pages err s'"
  with assms(2) backoff_list_once [OF assms(1), of List "\<lparr>Value = None, NextLink = None\<rparr>" s]
  have "ExponentialBackoff (requestBackoff az) (listCondition List)
          (\<lparr>Value = None, NextLink = None\<rparr>, s) = (None, (first, s1))"
    by simp
  with listLBLoop_chain [OF assms(1) chain, of "[]"]
  show "ListLBWithRetry az List Next s = Some ((Some (concat (map pageValues pages)), err), s')"
    by (simp add: ListLBWithRetry_def)
next
  fix e
  assume "e0 = Some e"
  with assms(2) backoff_list_once [OF assms(1), of List "\<lparr>Value = None, NextLink = None\<rparr>" s]
  have "ExponentialBackoff (requestBackoff az) (listCondition List)
          (\<lparr>Value = None, NextLink = None\<rparr>, s) = (Some e, (first, s1))"
    by simp
  then show "ListLBWithRetry az List Next s = Some ((None, Some e), s1)"
    by (simp add: ListLBWithRetry_def)
qed

theorem ListLBWithRetry_pages_witness:
  "ListLBWithRetry
     \<lparr>CloudProviderBackoff = False,
       resourceRequestBackoff = \<lparr>Duration = 5, Factor = 2, Jitter = 1, Steps = 6\<rparr>\<rparr>
     (\<lambda>s::nat. ((\<lparr>Value = Some [1, 2::nat], NextLink = Some ''p1''\<rparr>, None), Suc s))
     (\<lambda>page s. if NextLink page = Some ''p1''
                then ((\<lparr>Value = Some [3], NextLink = Some ''p2''\<rparr>, None), Suc s)
                else ((page, Some (Errorf ''gone'')), Suc s))
     0
   = Some ((Some [1, 2, 3], Some (Errorf ''gone'')), 3)"
proof -
  let ?az = "\<lparr>CloudProviderBackoff = False,
       resourceRequestBackoff = \<lparr>Duration = 5, Factor = 2, Jitter = 1, Steps = 6\<rparr>\<rparr>"
  let ?p0 = "\<lparr>Value = Some [1, 2::nat], NextLink = Some ''p1''\<rparr>"
  let ?p1 = "\<lparr>Value = Some [3::nat], NextLink = Some ''p2''\<rparr>"
  let ?List = "\<lambda>s::nat. ((?p0, None :: error option), Suc s)"
  let ?Next = "\<lambda>(page :: nat LoadBalancerListResult) (s::nat).
                if NextLink page = Some ''p1''
                then ((?p1, None), Suc s)
                else ((page, Some (Errorf ''gone'')), Suc s)"
  have steps: "0 < Steps (requestBackoff ?az)"
    by (simp add: requestBackoff_def)
  have first: "?List 0 = ((?p0, None), 1)"
    by simp
  have f0: "?Next ?p0 1 = ((?p1, None), 2)"
    by simp
  have f1: "?Next ?p1 2 = ((?p1, Some (Errorf ''gone'')), 3)"
    by simp
  have v0: "pageValues ?p0 \<noteq> []" and l0: "NextLink ?p0 = Some ''p1''"
    and v1: "pageValues ?p1 \<noteq> []" and l1: "NextLink ?p1 = Some ''p2''"
    by (simp_all add: pageValues_def)
  have "pageChain ?Next ?p1 2 [?p1] (Some (Errorf ''gone'')) 3"
    using v1 l1 f1 by (rule pageChain.failed)
  with v0 l0 f0
  have chain: "pageChain ?Next ?p0 1 [?p0, ?p1] (Some (Errorf ''gone'')) 3"
    by (rule pageChain.follow)
  from ListLBWithRetry_pages [of ?az ?List 0 ?p0 None 1 ?Next] steps first chain
  have "ListLBWithRetry ?az ?List ?Next 0
          = Some ((Some (concat (map pageValues [?p0, ?p1])), Some (Errorf ''gone'')), 3)"
    by blast
  then show ?thesis
    by (simp add: pageValues_def)
qed

subsection \<open>azure\_vmss.go\<close>

lemma parseDigit_spec: "parseDigit c = base36DigitValue c"
  by (simp add: parseDigit_def base36DigitValue_def Let_def)

lemma base36DigitValue_bound: "base36DigitValue c = Some d \<Longrightarrow> d < 36"
  by (auto simp: base36DigitValue_def Let_def split: if_splits)

lemma parseUintLoop_digits:
  "list_all (\<lambda>c. base36DigitValue c \<noteq> None) cs \<Longrightarrow> (n + 1) * 36 ^ length cs \<le> 2 ^ 64 \<Longrightarrow>
   parseUintLoop 36 cs n = Inr (foldl (\<lambda>v c. 36 * v + the (base36DigitValue c)) n cs)"
proof (induction cs arbitrary: n)
  case Nil
  then show ?case by simp
next
  case (Cons c cs)
  from Cons.prems(1) obtain d where d: "base36DigitValue c = Some d"
    by auto
  then have pd: "parseDigit c = Some d"
    using parseDigit_spec by simp
  from d have d36: "d < 36"
    by (rule base36DigitValue_bound)
  define a where "a = (n + 1) * 36"
  define k where "k = (36::nat) ^ length cs"
  have k: "1 \<le> k"
    by (simp add: k_def)
  from Cons.prems(2) have ak: "a * k \<le> 2 ^ 64"
    by (simp add: a_def k_def algebra_simps)
  have "a * 1 \<le> a * k"
    using k by (rule mult_le_mono2)
  then have "a \<le> a * k"
    by simp
  from this ak have "a \<le> 2 ^ 64"
    by (rule order_trans)
  then have n36: "n * 36 + 36 \<le> (2::nat) ^ 64"
    by (simp add: a_def)
  let ?n1 = "n * 36 + d"
  from n36 d36 have lt: "?n1 < (2::nat) ^ 64"
    by simp
  from n36 have cut: "\<not> n \<ge> maxUint64 div 36 + 1"
    by (simp add: maxUint64_def)
  from lt have m1: "(n * 36) mod 2 ^ 64 = n * 36" and m2: "?n1 mod 2 ^ 64 = ?n1"
    by simp_all
  from lt have le: "?n1 \<le> maxUint64"
    by (simp add: maxUint64_def)
  have "?n1 + 1 \<le> a"
    using d36 by (simp add: a_def)
  then have "(?n1 + 1) * k \<le> a * k"
    by (rule mult_le_mono1)
  with ak have "(?n1 + 1) * 36 ^ length cs \<le> 2 ^ 64"
    by (simp add: k_def)
  with Cons.prems(1) have "parseUintLoop 36 cs ?n1
      = Inr (foldl (\<lambda>v c. 36 * v + the (base36DigitValue c)) ?n1 cs)"
    by (intro Cons.IH) simp_all
  with pd d d36 cut m1 m2 le show ?case
    by (simp add: Let_def mult.commute)
qed

lemma parseUintLoop_nondigit:
  "\<not> list_all (\<lambda>c. base36DigitValue c \<noteq> None) cs \<Longrightarrow> \<exists>e. parseUintLoop 36 cs n = Inl e"
proof (induction cs arbitrary: n)
  case Nil
  then show ?case by simp
next
  case (Cons c cs)
  show ?case
  proof (cases "base36DigitValue c")
    case None
    then have "parseDigit c = None"
      using parseDigit_spec by simp
    then show ?thesis by simp
  next
    case (Some d)
    then have pd: "parseDigit c = Some d"
      using parseDigit_spec by simp
    from Some Cons.prems have "\<not> list_all (\<lambda>c. base36DigitValue c \<noteq> None) cs"
      by simp
    from Cons.IH [OF this] pd show ?thesis
      by (simp add: Let_def)
  qed
qed

lemma ParseUint_base36_Some:
  assumes "length s = 6" and "base36Value s = Some v"
  shows "ParseUint s 36 = Inr v"
proof -
  from assms(2) have ne: "s \<noteq> []" and digits: "list_all (\<lambda>c. base36DigitValue c \<noteq> None) s"
    and v: "v = foldl (\<lambda>v c. 36 * v + the (base36DigitValue c)) 0 s"
    by (simp_all add: base36Value_def split: if_splits)
  have "(0 + 1) * 36 ^ length s \<le> (2::nat) ^ 64"
    by (simp add: assms(1))
  from parseUintLoop_digits [OF digits this] ne v show ?thesis
    by (simp add: ParseUint_def)
qed

lemma ParseUint_base36_None:
  assumes "base36Value s = None"
  shows "\<exists>e. ParseUint s 36 = Inl e"
proof (cases "s = []")
  case True
  then show ?thesis by (simp add: ParseUint_def)
next
  case False
  with assms have "\<not> list_all (\<lambda>c. base36DigitValue c \<noteq> None) s"
    by (simp add: base36Value_def split: if_splits)
  from parseUintLoop_nondigit [OF this] False show ?thesis
    by (simp add: ParseUint_def)
qed

lemma less_10_cases:
  "k < (10::nat) \<Longrightarrow>
   k = 0 \<or> k = 1 \<or> k = 2 \<or> k = 3 \<or> k = 4 \<or> k = 5 \<or> k = 6 \<or> k = 7 \<or> k = 8 \<or> k = 9"
  by arith

lemma digit_nth:
  assumes "k < (10::nat)"
  shows "''0123456789'' ! k \<in> set ''0123456789''"
    and "(of_char (''0123456789'' ! k) :: nat) - 48 = k"
    and "0 < k \<Longrightarrow> ''0123456789'' ! k \<noteq> CHR ''0''"
  using less_10_cases [OF assms] by auto

lemma formatUint_nonempty: "formatUint n \<noteq> []"
  by (subst formatUint.simps) simp

lemma formatUint_digits: "list_all (\<lambda>c. c \<in> set ''0123456789'') (formatUint n)"
proof (induction n rule: formatUint.induct)
  case (1 n)
  show ?case
  proof (cases "n < 10")
    case True
    with digit_nth(1) [of n] show ?thesis
      by (subst formatUint.simps) simp
  next
    case False
    have "n mod 10 < 10" by simp
    from digit_nth(1) [OF this] 1 [OF False] False show ?thesis
      by (subst formatUint.simps) simp
  qed
qed

lemma formatUint_hd: "0 < n \<Longrightarrow> hd (formatUint n) \<noteq> CHR ''0''"
proof (induction n rule: formatUint.induct)
  case (1 n)
  show ?case
  proof (cases "n < 10")
    case True
    with digit_nth(3) [of n] 1(2) show ?thesis
      by (subst formatUint.simps) simp
  next
    case False
    then have "0 < n div 10" by simp
    from 1(1) [OF False this] False formatUint_nonempty [of "n div 10"] show ?thesis
      by (subst formatUint.simps) simp
  qed
qed

lemma formatUint_length: "1 < length (formatUint n) \<Longrightarrow> 0 < n"
  by (subst (asm) formatUint.simps) (simp split: if_splits)

lemma formatUint_value: "foldl (\<lambda>v c. 10 * v + (of_char c - 48)) 0 (formatUint n) = n"
proof (induction n rule: formatUint.induct)
  case (1 n)
  show ?case
  proof (cases "n < 10")
    case True
    with digit_nth(2) [of n] show ?thesis
      by (subst formatUint.simps) simp
  next
    case False
    have "n mod 10 < 10" by simp
    from digit_nth(2) [OF this] 1 [OF False] False show ?thesis
      by (subst formatUint.simps) simp
  qed
qed

lemma formatUint_decimal: "decimalValue (formatUint n) = Some n"
  using formatUint_nonempty [of n] formatUint_digits [of n] formatUint_hd [of n]
    formatUint_length [of n] formatUint_value [of n]
  by (simp add: decimalValue_def)

text \<open>
  C7.  getScaleSetVMInstanceID returns ErrorNotVmssInstance (with an empty ID) when the
  name is shorter than 6 bytes or its last 6 bytes are not an unsigned base-36 number;
  otherwise it returns a nil error and the decimal representation of the base-36 value
  of the last 6 bytes.
\<close>

theorem getScaleSetVMInstanceID_base36:
  "(length machineName < 6 \<or> base36Value (drop (length machineName - 6) machineName) = None
      \<longrightarrow> getScaleSetVMInstanceID machineName = ('''', Some ErrorNotVmssInstance))
   \<and> (\<forall>v. 6 \<le> length machineName
            \<and> base36Value (drop (length machineName - 6) machineName) = Some v
      \<longrightarrow> snd (getScaleSetVMInstanceID machineName) = None
          \<and> decimalValue (fst (getScaleSetVMInstanceID machineName)) = Some v)"
proof (intro conjI impI allI)
  assume a: "length machineName < 6
             \<or> base36Value (drop (length machineName - 6) machineName) = None"
  show "getScaleSetVMInstanceID machineName = ('''', Some ErrorNotVmssInstance)"
  proof (cases "length machineName < 6")
    case True
    then show ?thesis by (simp add: getScaleSetVMInstanceID_def)
  next
    case False
    with a have "base36Value (drop (length machineName - 6) machineName) = None"
      by simp
    from ParseUint_base36_None [OF this] False show ?thesis
      by (auto simp: getScaleSetVMInstanceID_def Let_def)
  qed
next
  fix v
  assume a: "6 \<le> length machineName
             \<and> base36Value (drop (length machineName - 6) machineName) = Some v"
  then have "length (drop (length machineName - 6) machineName) = 6"
    by simp
  from ParseUint_base36_Some [OF this] a
  have p: "ParseUint (drop (length machineName - 6) machineName) 36 = Inr v"
    by simp
  from a have ge: "\<not> length machineName < 6"
    by simp
  from p ge have r: "getScaleSetVMInstanceID machineName = (formatUint v, None)"
    by (simp add: getScaleSetVMInstanceID_def)
  show "snd (getScaleSetVMInstanceID machineName) = None"
    by (simp add: r)
  show "decimalValue (fst (getScaleSetVMInstanceID machineName)) = Some v"
    by (simp add: r formatUint_decimal)
qed

theorem getScaleSetVMInstanceID_base36_witness:
  "getScaleSetVMInstanceID ''vm'' = ('''', Some ErrorNotVmssInstance)
   \<and> getScaleSetVMInstanceID ''k8s-agentpool1-1234'' = ('''', Some ErrorNotVmssInstance)
   \<and> snd (getScaleSetVMInstanceID ''vmss_2-00001Z'') = None
   \<and> decimalValue (fst (getScaleSetVMInstanceID ''vmss_2-00001Z'')) = Some 71"
proof -
  have short: "length ''vm'' < 6"
    by simp
  have bad: "base36Value (drop (length ''k8s-agentpool1-1234'' - 6) ''k8s-agentpool1-1234'') = None"
    by (simp add: base36Value_def base36DigitValue_def)
  have good: "6 \<le> length ''vmss_2-00001Z''
      \<and> base36Value (drop (length ''vmss_2-00001Z'' - 6) ''vmss_2-00001Z'') = Some 71"
    by (simp add: base36Value_def base36DigitValue_def)
  from getScaleSetVMInstanceID_base36 [of "''vm''"] short
  have 1: "getScaleSetVMInstanceID ''vm'' = ('''', Some ErrorNotVmssInstance)"
    by blast
  from getScaleSetVMInstanceID_base36 [of "''k8s-agentpool1-1234''"] bad
  have 2: "getScaleSetVMInstanceID ''k8s-agentpool1-1234'' = ('''', Some ErrorNotVmssInstance)"
    by blast
  from getScaleSetVMInstanceID_base36 [of "''vmss_2-00001Z''"] good
  have 3: "snd (getScaleSetVMInstanceID ''vmss_2-00001Z'') = None
           \<and> decimalValue (fst (getScaleSetVMInstanceID ''vmss_2-00001Z'')) = Some 71"
    by blast
  from 1 2 3 show ?thesis by simp
qed

end
